theory Spec2Isabelle
  imports Main "HOL-Library.Sublist"
begin

section \<open>Data model\<close>

text \<open>
  JavaScript strings are modelled as \<^typ>\<open>string\<close>, a list of code units:
  \<open>s.length\<close> is \<^const>\<open>length\<close>, \<open>s.substring(n)\<close> is \<^term>\<open>drop n s\<close> (both return the
  empty string when \<open>n\<close> exceeds the length), \<open>s.endsWith(t)\<close> is \<^term>\<open>suffix t s\<close> and
  \<open>s.startsWith(t)\<close> is \<^term>\<open>prefix t s\<close>. A string value used as a condition is true exactly
  when it is not empty; an absent value (\<open>null\<close>, \<open>undefined\<close>) is false.
\<close>

text \<open>
  A text produced by the task: a localised message \<open>tl.loc(key, args)\<close>, kept as its resource
  key and arguments, or a plain string.
\<close>

datatype message = Loc string "string list" | Str string

text \<open>
  An error is either \<open>new Error(msg)\<close> thrown by the task itself, or an error object raised
  by a collaborator (the SDK, a stream), carried by its rendering as a string.
\<close>

datatype error = Error message | Collaborator string

record s3object =
  Key :: string

record ListObjectsRequest =
  Bucket :: string
  Prefix :: string
  Marker :: "string option"

record ListObjectsOutput =
  Contents :: "s3object list"
  NextMarker :: "string option"

record GetObjectRequest =
  getBucket :: string
  getKey :: string
  SSECustomerAlgorithm :: "string option"
  SSECustomerKey :: "string option"

record role =
  Arn :: string

record GetRoleResponse =
  Role :: role

text \<open>
  The task's parameter bundle (class \<open>TaskParameters\<close>). An input that was not supplied
  and an empty input behave alike in this code, so \<open>sourceFolder\<close> is a string whose empty
  value means that no prefix is configured.
\<close>

record TaskParameters =
  bucketName :: string
  sourceFolder :: string
  targetFolder :: string
  globExpressions :: "string list"
  flattenFolders :: bool
  overwrite :: bool
  keyManagement :: string
  customerKey :: string

text \<open>
  Everything the task does to the outside, in the order it does it: console and debug
  output, file system changes, and requests to the storage and identity services. A request
  stands for the call together with the tracing that the client configured by
  \<open>SdkUtils.createAndConfigureSdkClient\<close> writes when the request completes.
\<close>

datatype effect =
    ConsoleLog message
  | ConsoleError string
  | Debug message
  | MkdirP string
  | CreateWriteStream string
  | HeadBucketCall string
  | ListObjectsCall ListObjectsRequest
  | GetObjectCall GetObjectRequest
  | GetRoleCall string

text \<open>
  The state the task runs in: the effects so far and the local file system. The file system
  is a value of any type \<open>'fs\<close>; how it answers and how it changes is given by the platform.
  It changes only through the task's own calls, and these calls are taken to succeed.
\<close>

record 'fs world =
  trace :: "effect list"
  disk :: 'fs

text \<open>
  The collaborators, all outside this repository: the glob engine (\<open>minimatch\<close>), Node's
  \<open>path\<close> and \<open>fs\<close> modules with \<open>tl.mkdirP\<close>, the S3 client, and the two constants of
  \<open>TaskParameters\<close> the download code compares against. A service call returns \<open>Inl err\<close>
  when its promise rejects.
\<close>

record 'fs platform =
  minimatch :: "string \<Rightarrow> string \<Rightarrow> bool"
  basename :: "string \<Rightarrow> string"
  dirname :: "string \<Rightarrow> string"
  join :: "string \<Rightarrow> string \<Rightarrow> string"
  existsSync :: "'fs \<Rightarrow> string \<Rightarrow> bool"
  mkdirP :: "string \<Rightarrow> 'fs \<Rightarrow> 'fs"
  createWriteStream :: "string \<Rightarrow> 'fs \<Rightarrow> 'fs"
  headBucket :: "string \<Rightarrow> string + unit"
  listObjects :: "ListObjectsRequest \<Rightarrow> string + ListObjectsOutput"
  customerManagedKeyValue :: string
  aes256AlgorithmValue :: string

definition emit :: "effect \<Rightarrow> 'fs world \<Rightarrow> 'fs world" where
  "emit e w = w\<lparr>trace := trace w @ [e]\<rparr>"

fun truthy :: "string option \<Rightarrow> bool" where
  "truthy None = False"
| "truthy (Some s) = (s \<noteq> [])"

section \<open>Key Lister: \<open>fetchAllObjectKeys\<close>\<close>

text \<open>The body of the \<open>forEach\<close> over a page: a key is pushed unless it is a folder marker.\<close>

definition pushKey :: "string list \<Rightarrow> s3object \<Rightarrow> string list" where
  "pushKey allKeys s3object =
     (if \<not> suffix ''_$folder$'' (Key s3object) then allKeys @ [Key s3object] else allKeys)"

text \<open>
  The \<open>do ... while (nextToken)\<close> loop. Nothing bounds the number of pages, so the loop takes
  fuel: one unit per page request, \<open>None\<close> when it runs out. A request that fails is caught:
  the error goes to \<open>console.error\<close>, the token is cleared and the loop ends with the keys
  collected so far.
\<close>

fun listLoop :: "nat \<Rightarrow> 'fs platform \<Rightarrow> TaskParameters \<Rightarrow> string option \<Rightarrow> string list \<Rightarrow>
    'fs world \<Rightarrow> ((error + string list) \<times> 'fs world) option" where
  "listLoop 0 P tp nextToken allKeys w = None"
| "listLoop (Suc fuel) P tp nextToken allKeys w =
     (let params = \<lparr>Bucket = bucketName tp, Prefix = sourceFolder tp, Marker = nextToken\<rparr>;
          w1 = emit (ListObjectsCall params) w
      in case listObjects P params of
           Inr s3Data \<Rightarrow>
             (let nextToken' = NextMarker s3Data;
                  allKeys' = foldl pushKey allKeys (Contents s3Data)
              in if truthy nextToken' then listLoop fuel P tp nextToken' allKeys' w1
                 else Some (Inr allKeys', w1))
         | Inl err \<Rightarrow> Some (Inr allKeys, emit (ConsoleError err) w1))"

definition fetchAllObjectKeys :: "nat \<Rightarrow> 'fs platform \<Rightarrow> TaskParameters \<Rightarrow> 'fs world \<Rightarrow>
    ((error + string list) \<times> 'fs world) option" where
  "fetchAllObjectKeys fuel P tp w =
     (let w1 = (if sourceFolder tp \<noteq> []
                then emit (ConsoleLog (Loc ''ListingKeysFromPrefix'' [sourceFolder tp, bucketName tp])) w
                else emit (ConsoleLog (Loc ''ListingKeysFromRoot'' [bucketName tp])) w)
      in listLoop fuel P tp None [] w1)"

section \<open>Glob Matcher: \<open>matchObjectKeys\<close>\<close>

text \<open>
  \<open>matcher.match(keyToTest)\<close> is \<^term>\<open>minimatch P glob keyToTest\<close>. The \<open>forEach\<close> pushes the
  full key when its remainder matches, and writes a debug line for it.
\<close>

definition matchObjectKeys :: "'fs platform \<Rightarrow> string list \<Rightarrow> string \<Rightarrow> string \<Rightarrow> 'fs world \<Rightarrow>
    string list \<times> 'fs world" where
  "matchObjectKeys P allKeys sourcePrefix glob w =
     (let sourcePrefixLen = (if sourcePrefix \<noteq> [] then length sourcePrefix + 1 else 0);
          w1 = (if sourcePrefix \<noteq> []
                then emit (ConsoleLog (Loc ''GlobbingFromPrefix'' [sourcePrefix, glob])) w
                else emit (ConsoleLog (Loc ''GlobbingFromRoot'' [glob])) w)
      in foldl (\<lambda>(matchedKeys, w') key.
                  let keyToTest = drop sourcePrefixLen key
                  in if minimatch P glob keyToTest
                     then (matchedKeys @ [key], emit (Debug (Loc ''MatchedKey'' [key])) w')
                     else (matchedKeys, w'))
               ([], w1) allKeys)"

section \<open>Object Fetcher: \<open>downloadFile\<close>\<close>

text \<open>
  The promise's executor runs at once: it creates the destination's directory when missing,
  opens the write stream and the object's read stream, and registers three handlers.
\<close>

definition downloadFile :: "'fs platform \<Rightarrow> GetObjectRequest \<Rightarrow> string \<Rightarrow> 'fs world \<Rightarrow> 'fs world" where
  "downloadFile P s3Params dest w =
     (let dir = dirname P dest;
          w1 = (if \<not> existsSync P (disk w) dir
                then (emit (MkdirP dir) w)\<lparr>disk := mkdirP P dir (disk w)\<rparr>
                else w);
          w2 = (emit (CreateWriteStream dest) w1)\<lparr>disk := createWriteStream P dest (disk w1)\<rparr>
      in emit (GetObjectCall s3Params) w2)"

text \<open>
  What the two streams report afterwards. Only three kinds of event have a handler:
  \<open>s3Stream.on('error', reject)\<close>, \<open>file.on('error', reject)\<close> and \<open>file.on('close', resolve)\<close>;
  every other event (\<open>data\<close>, \<open>end\<close>, \<open>finish\<close>, ...) is \<open>OtherEvent\<close>.
\<close>

datatype stream_event = S3StreamError string | FileError string | FileClose | OtherEvent

datatype promise = Pending | Resolved | Rejected string

text \<open>A promise settles once: \<open>resolve\<close> and \<open>reject\<close> do nothing on a settled promise.\<close>

fun settle :: "promise \<Rightarrow> stream_event \<Rightarrow> promise" where
  "settle Pending (S3StreamError err) = Rejected err"
| "settle Pending (FileError err) = Rejected err"
| "settle Pending FileClose = Resolved"
| "settle p ev = p"

text \<open>The state of the promise \<open>downloadFile\<close> returned, after the events of its two streams.\<close>

definition downloadFile_promise :: "stream_event list \<Rightarrow> promise" where
  "downloadFile_promise evs = foldl settle Pending evs"

section \<open>Download Orchestrator: \<open>downloadFiles\<close> and \<open>execute\<close>\<close>

text \<open>How an \<open>async\<close> function's promise ends: fulfilled, rejected, or never settled.\<close>

datatype outcome = Fulfilled | Failed error | Unsettled

type_synonym download = "GetObjectRequest \<times> string"

text \<open>The destination of a matched key (lines 80 to 86).\<close>

definition destination :: "'fs platform \<Rightarrow> TaskParameters \<Rightarrow> string \<Rightarrow> string" where
  "destination P tp matchedKey =
     (if flattenFolders tp
      then (let fname = basename P matchedKey in join P (targetFolder tp) fname)
      else join P (targetFolder tp) matchedKey)"

definition getObjectParams :: "'fs platform \<Rightarrow> TaskParameters \<Rightarrow> string \<Rightarrow> GetObjectRequest" where
  "getObjectParams P tp matchedKey =
     (let params = \<lparr>getBucket = bucketName tp, getKey = matchedKey,
                     SSECustomerAlgorithm = None, SSECustomerKey = None\<rparr>
      in if keyManagement tp = customerManagedKeyValue P
         then params\<lparr>SSECustomerAlgorithm := Some (aes256AlgorithmValue P),
                     SSECustomerKey := Some (customerKey tp)\<rparr>
         else params)"

text \<open>
  The inner loop, over the keys one pattern matched. \<open>allDownloads\<close> is the array of the
  promises created so far, each kept as its request and destination; a \<open>throw\<close> leaves the
  loop with the downloads already started still running.
\<close>

fun forMatchedKeys :: "'fs platform \<Rightarrow> TaskParameters \<Rightarrow> string list \<Rightarrow> download list \<Rightarrow>
    'fs world \<Rightarrow> (error + unit) \<times> download list \<times> 'fs world" where
  "forMatchedKeys P tp [] allDownloads w = (Inr (), allDownloads, w)"
| "forMatchedKeys P tp (matchedKey # rest) allDownloads w =
     (let dest = destination P tp matchedKey
      in if existsSync P (disk w) dest \<and> \<not> overwrite tp
         then (Inl (Error (Loc ''FileExistsError'' [dest, matchedKey])), allDownloads, w)
         else
           (let w1 = (if existsSync P (disk w) dest
                      then emit (ConsoleLog (Loc ''FileOverwriteWarning'' [dest, matchedKey])) w
                      else w);
                w2 = emit (ConsoleLog (Loc ''QueueingDownload'' [matchedKey])) w1;
                params = getObjectParams P tp matchedKey;
                w3 = downloadFile P params dest w2
            in forMatchedKeys P tp rest (allDownloads @ [(params, dest)]) w3))"

text \<open>The outer loop, over the glob patterns in their configured order.\<close>

fun forGlobs :: "'fs platform \<Rightarrow> TaskParameters \<Rightarrow> string list \<Rightarrow> string list \<Rightarrow> download list \<Rightarrow>
    'fs world \<Rightarrow> (error + unit) \<times> download list \<times> 'fs world" where
  "forGlobs P tp allKeys [] allDownloads w = (Inr (), allDownloads, w)"
| "forGlobs P tp allKeys (glob # globs) allDownloads w =
     (case matchObjectKeys P allKeys (sourceFolder tp) glob w of
        (matchedKeys, w1) \<Rightarrow>
          (case forMatchedKeys P tp matchedKeys allDownloads w1 of
             (Inl e, allDownloads', w2) \<Rightarrow> (Inl e, allDownloads', w2)
           | (Inr u, allDownloads', w2) \<Rightarrow> forGlobs P tp allKeys globs allDownloads' w2))"

text \<open>
  \<open>Promise.all\<close> over the queued downloads. The events of all streams arrive in one sequence,
  each tagged with the index of its download in \<open>allDownloads\<close>. The first rejection rejects
  the whole; it is fulfilled once every download is resolved.
\<close>

fun promiseAll :: "promise list \<Rightarrow> (nat \<times> stream_event) list \<Rightarrow> outcome" where
  "promiseAll ps [] = (if list_all (\<lambda>p. p = Resolved) ps then Fulfilled else Unsettled)"
| "promiseAll ps ((i, ev) # evs) =
     (if i < length ps
      then (case settle (ps ! i) ev of
              Rejected err \<Rightarrow> Failed (Collaborator err)
            | p' \<Rightarrow> promiseAll (ps[i := p']) evs)
      else promiseAll ps evs)"

text \<open>
  The world in which the listing starts: the announcement is logged and the target folder
  created when missing (lines 63 to 73).
\<close>

definition announce :: "'fs platform \<Rightarrow> TaskParameters \<Rightarrow> 'fs world \<Rightarrow> 'fs world" where
  "announce P tp w =
     (let msgSource = (if sourceFolder tp \<noteq> [] then sourceFolder tp else ''/'');
          w1 = emit (ConsoleLog (Loc ''DownloadingFiles'' [msgSource, bucketName tp, targetFolder tp])) w
      in if \<not> existsSync P (disk w1) (targetFolder tp)
         then (emit (MkdirP (targetFolder tp)) w1)\<lparr>disk := mkdirP P (targetFolder tp) (disk w1)\<rparr>
         else w1)"

text \<open>
  \<open>downloadFiles\<close>. The result is \<open>None\<close> when the listing runs out of fuel. Otherwise it
  holds how the returned promise ends under the stream events \<open>evs\<close>, the array
  \<open>allDownloads\<close> as the loops left it, and the world: a \<open>throw\<close> in the loops rejects the
  promise at once, and else the promise is the \<open>Promise.all\<close> of the queued downloads.
\<close>

definition downloadFiles :: "nat \<Rightarrow> 'fs platform \<Rightarrow> TaskParameters \<Rightarrow> (nat \<times> stream_event) list \<Rightarrow>
    'fs world \<Rightarrow> (outcome \<times> download list \<times> 'fs world) option" where
  "downloadFiles fuel P tp evs w =
     (case fetchAllObjectKeys fuel P tp (announce P tp w) of
        None \<Rightarrow> None
      | Some (Inl e, w1) \<Rightarrow> Some (Failed e, [], w1)
      | Some (Inr allKeys, w1) \<Rightarrow>
          (case forGlobs P tp allKeys (globExpressions tp) [] w1 of
             (Inl e, allDownloads, w2) \<Rightarrow> Some (Failed e, allDownloads, w2)
           | (Inr u, allDownloads, w2) \<Rightarrow>
               Some (promiseAll (replicate (length allDownloads) Pending) evs, allDownloads, w2)))"

definition testBucketExists :: "'fs platform \<Rightarrow> string \<Rightarrow> 'fs world \<Rightarrow> bool \<times> 'fs world" where
  "testBucketExists P bucket w =
     (let w1 = emit (HeadBucketCall bucket) w
      in case headBucket P bucket of Inr u \<Rightarrow> (True, w1) | Inl err \<Rightarrow> (False, w1))"

text \<open>
  \<open>execute\<close>. Creating the service client configures the SDK and sends nothing, so it leaves
  no effect.
\<close>

definition execute :: "nat \<Rightarrow> 'fs platform \<Rightarrow> TaskParameters \<Rightarrow> (nat \<times> stream_event) list \<Rightarrow>
    'fs world \<Rightarrow> (outcome \<times> download list \<times> 'fs world) option" where
  "execute fuel P tp evs w =
     (case testBucketExists P (bucketName tp) w of
        (exists, w1) \<Rightarrow>
          if \<not> exists
          then Some (Failed (Error (Loc ''BucketNotExist'' [bucketName tp])), [], w1)
          else (case downloadFiles fuel P tp evs w1 of
                  None \<Rightarrow> None
                | Some (Fulfilled, allDownloads, w2) \<Rightarrow>
                    Some (Fulfilled, allDownloads, emit (ConsoleLog (Loc ''TaskCompleted'' [])) w2)
                | Some (r, allDownloads, w2) \<Rightarrow> Some (r, allDownloads, w2)))"

section \<open>Identity resolution: \<open>SdkUtils.roleArnFromName\<close>\<close>

text \<open>\<open>iamClient\<close> is the client's \<open>getRole\<close>, a function of the role name.\<close>

definition roleArnFromName :: "(string \<Rightarrow> string + GetRoleResponse) \<Rightarrow> string \<Rightarrow> 'fs world \<Rightarrow>
    (error + string) \<times> 'fs world" where
  "roleArnFromName iamClient roleName w =
     (if prefix ''arn:'' roleName then (Inr roleName, w)
      else
        (let w1 = emit (ConsoleLog (Str (''Attempting to retrieve Amazon Resource Name (ARN) for role '' @ roleName))) w;
             w2 = emit (GetRoleCall roleName) w1
         in case iamClient roleName of
              Inr response \<Rightarrow> (Inr (Arn (Role response)), w2)
            | Inl err \<Rightarrow> (Inl (Error (Str (''Error while obtaining ARN: '' @ err))), w2)))"

section \<open>What the storage service delivers\<close>

text \<open>
  \<^term>\<open>served P tp marker pages stop\<close>: asked from \<open>marker\<close> on, the service answers with
  exactly \<open>pages\<close>, each page but the last naming the marker of the next request. With
  \<open>stop = None\<close> the last page names no further marker; with \<open>stop = Some err\<close> every page
  names one and the request after the last page fails with \<open>err\<close>.
\<close>

fun served :: "'fs platform \<Rightarrow> TaskParameters \<Rightarrow> string option \<Rightarrow> ListObjectsOutput list \<Rightarrow>
    string option \<Rightarrow> bool" where
  "served P tp marker [] stop =
     (case stop of
        None \<Rightarrow> False
      | Some err \<Rightarrow>
          listObjects P \<lparr>Bucket = bucketName tp, Prefix = sourceFolder tp, Marker = marker\<rparr> = Inl err)"
| "served P tp marker (page # pages) stop =
     (listObjects P \<lparr>Bucket = bucketName tp, Prefix = sourceFolder tp, Marker = marker\<rparr> = Inr page \<and>
      (if truthy (NextMarker page) then served P tp (NextMarker page) pages stop
       else pages = [] \<and> stop = None))"

section \<open>What the file system keeps\<close>


section \<open>A concrete platform for the worked examples\<close>

text \<open>
  Stand-ins for the collaborators, used only where a statement is evaluated on concrete
  data. \<open>sampleMatch\<close> agrees with the glob engine on the two pattern shapes the examples use:
  a literal pattern, and a star followed by a literal (one path segment, not starting with
  a dot). The path functions are the POSIX ones on plain relative paths. The file system is
  the list of the paths that exist. \<open>tl.mkdirP\<close> creates its directory before it returns.
  \<open>fs.createWriteStream\<close> only schedules the opening of the file, which happens after the
  loops have run, so the disk the loops see is the same before and after it.
\<close>

definition sampleMatch :: "string \<Rightarrow> string \<Rightarrow> bool" where
  "sampleMatch glob key =
     (case glob of
        [] \<Rightarrow> key = []
      | c # lit \<Rightarrow>
          if c = CHR ''*''
          then key \<noteq> [] \<and> hd key \<noteq> CHR ''.'' \<and> CHR ''/'' \<notin> set key \<and> suffix lit key
          else glob = key)"

definition sampleBasename :: "string \<Rightarrow> string" where
  "sampleBasename p = rev (takeWhile (\<lambda>c. c \<noteq> CHR ''/'') (rev p))"

definition sampleDirname :: "string \<Rightarrow> string" where
  "sampleDirname p = rev (drop 1 (dropWhile (\<lambda>c. c \<noteq> CHR ''/'') (rev p)))"

definition sampleJoin :: "string \<Rightarrow> string \<Rightarrow> string" where
  "sampleJoin a b = a @ ''/'' @ b"

text \<open>
  A bucket listed in two pages under the prefix \<open>docs\<close>. In \<open>brokenListing\<close> the request for
  the second page fails.
\<close>

definition samplePage1 :: ListObjectsOutput where
  "samplePage1 = \<lparr>Contents = [\<lparr>Key = ''docs/a.txt''\<rparr>, \<lparr>Key = ''docs/_$folder$''\<rparr>],
                  NextMarker = Some ''docs/_$folder$''\<rparr>"

definition samplePage2 :: ListObjectsOutput where
  "samplePage2 = \<lparr>Contents = [\<lparr>Key = ''docs/b.txt''\<rparr>, \<lparr>Key = ''docs/sub/c.txt''\<rparr>],
                  NextMarker = None\<rparr>"

definition sampleListing :: "ListObjectsRequest \<Rightarrow> string + ListObjectsOutput" where
  "sampleListing req =
     (if Marker req = None then Inr samplePage1
      else if Marker req = Some ''docs/_$folder$'' then Inr samplePage2
      else Inl ''InvalidArgument'')"

definition brokenListing :: "ListObjectsRequest \<Rightarrow> string + ListObjectsOutput" where
  "brokenListing req =
     (if Marker req = None then Inr samplePage1 else Inl ''NetworkingError'')"

definition samplePlatform :: "(ListObjectsRequest \<Rightarrow> string + ListObjectsOutput) \<Rightarrow>
    string list platform" where
  "samplePlatform listing =
     \<lparr>minimatch = sampleMatch, basename = sampleBasename, dirname = sampleDirname,
      join = sampleJoin,
      existsSync = (\<lambda>d p. p \<in> set d), mkdirP = (\<lambda>p d. p # d),
      createWriteStream = (\<lambda>p d. d),
      headBucket = (\<lambda>b. if b = ''bucket'' then Inr () else Inl ''NotFound''),
      listObjects = listing,
      customerManagedKeyValue = ''customerManaged'', aes256AlgorithmValue = ''AES256''\<rparr>"

definition sampleParameters :: TaskParameters where
  "sampleParameters =
     \<lparr>bucketName = ''bucket'', sourceFolder = ''docs'', targetFolder = ''out'',
      globExpressions = [''*.txt'', ''a.txt''], flattenFolders = False, overwrite = True,
      keyManagement = ''none'', customerKey = []\<rparr>"

definition emptyWorld :: "string list world" where
  "emptyWorld = \<lparr>trace = [], disk = []\<rparr>"

text \<open>
  Further data of the worked examples: the parameters with overwriting forbidden, with
  flattening, and for a bucket that does not exist; a disk on which a destination is already
  present; an identity service that knows one role; the request the task builds for a key;
  and the effects of the sample run, in three parts.
\<close>

definition strictParameters :: TaskParameters where
  "strictParameters = sampleParameters\<lparr>overwrite := False\<rparr>"

definition flatParameters :: TaskParameters where
  "flatParameters = sampleParameters\<lparr>flattenFolders := True\<rparr>"

definition missingParameters :: TaskParameters where
  "missingParameters = sampleParameters\<lparr>bucketName := ''missing''\<rparr>"

definition usedWorld :: "string list world" where
  "usedWorld = \<lparr>trace = [], disk = [''out/docs/a.txt'', ''out/docs'', ''out'']\<rparr>"

definition sampleRoles :: "string \<Rightarrow> string + GetRoleResponse" where
  "sampleRoles roleName =
     (if roleName = ''deploy'' then Inr \<lparr>Role = \<lparr>Arn = ''arn:aws:iam::123456789012:role/deploy''\<rparr>\<rparr>
      else Inl ''NoSuchEntity'')"

definition requestFor :: "string \<Rightarrow> GetObjectRequest" where
  "requestFor key = \<lparr>getBucket = ''bucket'', getKey = key, SSECustomerAlgorithm = None,
                     SSECustomerKey = None\<rparr>"

definition listedTrace :: "effect list" where
  "listedTrace =
     [ConsoleLog (Loc ''DownloadingFiles'' [''docs'', ''bucket'', ''out'']),
      MkdirP ''out'',
      ConsoleLog (Loc ''ListingKeysFromPrefix'' [''docs'', ''bucket'']),
      ListObjectsCall \<lparr>Bucket = ''bucket'', Prefix = ''docs'', Marker = None\<rparr>,
      ListObjectsCall \<lparr>Bucket = ''bucket'', Prefix = ''docs'', Marker = Some ''docs/_$folder$''\<rparr>]"

definition firstGlobTrace :: "effect list" where
  "firstGlobTrace =
     [ConsoleLog (Loc ''GlobbingFromPrefix'' [''docs'', ''*.txt'']),
      Debug (Loc ''MatchedKey'' [''docs/a.txt'']),
      Debug (Loc ''MatchedKey'' [''docs/b.txt'']),
      ConsoleLog (Loc ''QueueingDownload'' [''docs/a.txt'']),
      MkdirP ''out/docs'',
      CreateWriteStream ''out/docs/a.txt'',
      GetObjectCall (requestFor ''docs/a.txt''),
      ConsoleLog (Loc ''QueueingDownload'' [''docs/b.txt'']),
      CreateWriteStream ''out/docs/b.txt'',
      GetObjectCall (requestFor ''docs/b.txt'')]"

definition secondGlobTrace :: "effect list" where
  "secondGlobTrace =
     [ConsoleLog (Loc ''GlobbingFromPrefix'' [''docs'', ''a.txt'']),
      Debug (Loc ''MatchedKey'' [''docs/a.txt''])]"

definition flatTrace :: "effect list" where
  "flatTrace =
     [ConsoleLog (Loc ''GlobbingFromPrefix'' [''docs'', ''*.txt'']),
      Debug (Loc ''MatchedKey'' [''docs/a.txt'']),
      Debug (Loc ''MatchedKey'' [''docs/b.txt'']),
      ConsoleLog (Loc ''QueueingDownload'' [''docs/a.txt'']),
      CreateWriteStream ''out/a.txt'',
      GetObjectCall (requestFor ''docs/a.txt''),
      ConsoleLog (Loc ''QueueingDownload'' [''docs/b.txt'']),
      CreateWriteStream ''out/b.txt'',
      GetObjectCall (requestFor ''docs/b.txt'')]"




text \<open>
  The definitions of the worked examples, for evaluating them.
\<close>

lemmas sample_defs = samplePlatform_def sampleParameters_def sampleListing_def brokenListing_def
  emptyWorld_def samplePage1_def samplePage2_def sampleMatch_def sampleBasename_def
  sampleDirname_def sampleJoin_def

section \<open>Properties of the Key Lister\<close>

lemma foldl_pushKey:
  "foldl pushKey acc xs = acc @ filter (\<lambda>k. \<not> suffix ''_$folder$'' k) (map Key xs)"
  by (induction xs arbitrary: acc) (simp_all add: pushKey_def)

text \<open>
  When the service delivers \<open>ps\<close> and the loop has fuel for them, the loop returns the keys
  it held plus the keys of \<open>ps\<close> that are no folder markers; it leaves the disk alone, and
  the last thing it writes, when a request failed, is that error on \<open>console.error\<close>.
\<close>

lemma listLoop_served:
  "served P tp marker ps stop \<Longrightarrow> length ps < fuel \<Longrightarrow>
   \<exists>w'. listLoop fuel P tp marker acc w =
           Some (Inr (acc @ filter (\<lambda>k. \<not> suffix ''_$folder$'' k)
                               (concat (map (\<lambda>p. map Key (Contents p)) ps))), w') \<and>
         disk w' = disk w \<and>
         (\<exists>tr. trace w' = trace w @ tr @ (case stop of None \<Rightarrow> [] | Some err \<Rightarrow> [ConsoleError err]))"
proof (induction ps arbitrary: marker fuel acc w)
  case Nil
  then obtain n err where "fuel = Suc n" "stop = Some err"
    by (cases fuel; cases stop) auto
  with Nil show ?case by (auto simp: emit_def)
next
  case (Cons p ps)
  then obtain n where n: "fuel = Suc n" by (cases fuel) auto
  show ?case
  proof (cases "truthy (NextMarker p)")
    case True
    with Cons.prems n have s: "served P tp (NextMarker p) ps stop" and l: "length ps < n"
      by auto
    from Cons.IH[OF s l, of "foldl pushKey acc (Contents p)"
        "emit (ListObjectsCall \<lparr>Bucket = bucketName tp, Prefix = sourceFolder tp, Marker = marker\<rparr>) w"]
    show ?thesis using Cons.prems n True
      by (clarsimp simp: foldl_pushKey emit_def)
  next
    case False
    with Cons.prems n show ?thesis
      by (auto simp: foldl_pushKey emit_def)
  qed
qed

text \<open>
  The loop never fails, and every key it adds is no folder marker.
\<close>

lemma listLoop_no_marker:
  "listLoop fuel P tp marker acc w = Some (r, w') \<Longrightarrow>
   \<exists>keys. r = Inr keys \<and> (\<forall>k \<in> set keys. k \<in> set acc \<or> \<not> suffix ''_$folder$'' k)"
proof (induction fuel arbitrary: marker acc w)
  case 0
  then show ?case by simp
next
  case (Suc n)
  show ?case
  proof (cases "listObjects P \<lparr>Bucket = bucketName tp, Prefix = sourceFolder tp, Marker = marker\<rparr>")
    case (Inl err)
    with Suc.prems show ?thesis by auto
  next
    case (Inr page)
    show ?thesis
    proof (cases "truthy (NextMarker page)")
      case True
      with Suc.prems Inr
      have "listLoop n P tp (NextMarker page) (foldl pushKey acc (Contents page))
              (emit (ListObjectsCall \<lparr>Bucket = bucketName tp, Prefix = sourceFolder tp,
                                       Marker = marker\<rparr>) w) = Some (r, w')"
        by simp
      from Suc.IH[OF this] show ?thesis by (auto simp: foldl_pushKey)
    next
      case False
      with Suc.prems Inr show ?thesis by (auto simp: foldl_pushKey)
    qed
  qed
qed

text \<open>
  Claim C1 says that the key listing fails with a listing error whenever a page request
  fails, and never returns a partial key set. It does not hold: with \<open>brokenListing\<close> the
  request for the second page fails, and the listing still returns, with the one key of the
  first page that is no folder marker.
\<close>

theorem fetchAllObjectKeys_swallows_counterexample:
  "listObjects (samplePlatform brokenListing)
     \<lparr>Bucket = ''bucket'', Prefix = ''docs'', Marker = Some ''docs/_$folder$''\<rparr> = Inl ''NetworkingError'' \<and>
   fetchAllObjectKeys 2 (samplePlatform brokenListing) sampleParameters emptyWorld =
     Some (Inr [''docs/a.txt''],
           \<lparr>trace = [ConsoleLog (Loc ''ListingKeysFromPrefix'' [''docs'', ''bucket'']),
                     ListObjectsCall \<lparr>Bucket = ''bucket'', Prefix = ''docs'', Marker = None\<rparr>,
                     ListObjectsCall \<lparr>Bucket = ''bucket'', Prefix = ''docs'',
                                      Marker = Some ''docs/_$folder$''\<rparr>,
                     ConsoleError ''NetworkingError''],
             disk = []\<rparr>)"
  by (simp add: fetchAllObjectKeys_def sample_defs emit_def pushKey_def suffix_to_prefix
      numeral_2_eq_2)

text \<open>
  Claim C1, as the code has it: when the service delivers the pages \<open>ps\<close> and the next page
  request fails with \<open>err\<close>, the key listing does not fail. It returns the keys of \<open>ps\<close> that
  are no folder markers, a partial key set, and the last thing it did was to write \<open>err\<close> to
  \<open>console.error\<close>; the disk is untouched.
\<close>

theorem fetchAllObjectKeys_page_failure:
  assumes "served P tp None ps (Some err)" and "length ps < fuel"
  shows "\<exists>w'. fetchAllObjectKeys fuel P tp w =
                Some (Inr (filter (\<lambda>k. \<not> suffix ''_$folder$'' k)
                             (concat (map (\<lambda>p. map Key (Contents p)) ps))), w') \<and>
              last (trace w') = ConsoleError err \<and> disk w' = disk w"
proof -
  let ?w1 = "if sourceFolder tp \<noteq> []
             then emit (ConsoleLog (Loc ''ListingKeysFromPrefix'' [sourceFolder tp, bucketName tp])) w
             else emit (ConsoleLog (Loc ''ListingKeysFromRoot'' [bucketName tp])) w"
  from listLoop_served[OF assms, of "[]" ?w1]
  obtain w' tr where r: "listLoop fuel P tp None [] ?w1 =
      Some (Inr (filter (\<lambda>k. \<not> suffix ''_$folder$'' k)
                   (concat (map (\<lambda>p. map Key (Contents p)) ps))), w')"
    and d: "disk w' = disk ?w1" and t: "trace w' = trace ?w1 @ tr @ [ConsoleError err]"
    by auto
  have "disk ?w1 = disk w" by (simp add: emit_def)
  with r d t show ?thesis
    by (simp add: fetchAllObjectKeys_def Let_def)
qed

text \<open>
  The amended claim C1 on the broken listing: one page, then a failure.
\<close>

theorem fetchAllObjectKeys_page_failure_witness:
  "served (samplePlatform brokenListing) sampleParameters None [samplePage1] (Some ''NetworkingError'') \<and>
   length [samplePage1] < 2 \<and>
   (\<exists>w'. fetchAllObjectKeys 2 (samplePlatform brokenListing) sampleParameters emptyWorld =
            Some (Inr [''docs/a.txt''], w') \<and>
          last (trace w') = ConsoleError ''NetworkingError'' \<and> disk w' = [])"
proof -
  have s: "served (samplePlatform brokenListing) sampleParameters None [samplePage1] (Some ''NetworkingError'')"
    by (simp add: sample_defs)
  have l: "length [samplePage1] < 2" by simp
  from fetchAllObjectKeys_page_failure[OF s l, of emptyWorld] s l show ?thesis
    by (simp add: samplePage1_def suffix_to_prefix emptyWorld_def)
qed

text \<open>
  Claim C2: whatever the key listing returns is a key list in which no key ends with
  \<open>_$folder$\<close>; and when the service delivers the pages \<open>ps\<close> (to the end of the listing, or
  up to a failing request), the listing returns, in order, every key of every page of \<open>ps\<close>
  that does not end with \<open>_$folder$\<close>, and nothing else.
\<close>

theorem fetchAllObjectKeys_excludes_markers:
  "(fetchAllObjectKeys fuel P tp w = Some (r, w') \<longrightarrow>
      (\<exists>keys. r = Inr keys \<and> (\<forall>k \<in> set keys. \<not> suffix ''_$folder$'' k))) \<and>
   (served P tp None ps stop \<and> length ps < fuel \<longrightarrow>
      (\<exists>w''. fetchAllObjectKeys fuel P tp w =
                Some (Inr (filter (\<lambda>k. \<not> suffix ''_$folder$'' k)
                             (concat (map (\<lambda>p. map Key (Contents p)) ps))), w'')))"
proof (intro conjI impI)
  assume "fetchAllObjectKeys fuel P tp w = Some (r, w')"
  then show "\<exists>keys. r = Inr keys \<and> (\<forall>k \<in> set keys. \<not> suffix ''_$folder$'' k)"
    by (auto simp: fetchAllObjectKeys_def Let_def dest!: listLoop_no_marker split: if_splits)
next
  assume "served P tp None ps stop \<and> length ps < fuel"
  then have s: "served P tp None ps stop" and l: "length ps < fuel" by auto
  show "\<exists>w''. fetchAllObjectKeys fuel P tp w =
                Some (Inr (filter (\<lambda>k. \<not> suffix ''_$folder$'' k)
                             (concat (map (\<lambda>p. map Key (Contents p)) ps))), w'')"
    using listLoop_served[OF s l, of "[]"]
    by (simp add: fetchAllObjectKeys_def Let_def) blast
qed

text \<open>
  Claim C2 on the sample bucket: two pages, one folder marker among four keys.
\<close>

theorem fetchAllObjectKeys_excludes_markers_witness:
  "served (samplePlatform sampleListing) sampleParameters None [samplePage1, samplePage2] None \<and>
   length [samplePage1, samplePage2] < 3 \<and>
   (\<exists>w'. fetchAllObjectKeys 3 (samplePlatform sampleListing) sampleParameters emptyWorld =
      Some (Inr [''docs/a.txt'', ''docs/b.txt'', ''docs/sub/c.txt''], w')) \<and>
   list_all (\<lambda>k. \<not> suffix ''_$folder$'' k) [''docs/a.txt'', ''docs/b.txt'', ''docs/sub/c.txt'']"
proof -
  have s: "served (samplePlatform sampleListing) sampleParameters None [samplePage1, samplePage2] None"
    by (simp add: sample_defs)
  have l: "length [samplePage1, samplePage2] < 3" by simp
  from fetchAllObjectKeys_excludes_markers[of 3 "samplePlatform sampleListing" sampleParameters
      emptyWorld _ _ "[samplePage1, samplePage2]" None] s l
  obtain w' where r: "fetchAllObjectKeys 3 (samplePlatform sampleListing) sampleParameters emptyWorld =
      Some (Inr [''docs/a.txt'', ''docs/b.txt'', ''docs/sub/c.txt''], w')"
    by (auto simp: samplePage1_def samplePage2_def suffix_to_prefix)
  from fetchAllObjectKeys_excludes_markers[of 3 "samplePlatform sampleListing" sampleParameters
      emptyWorld "Inr [''docs/a.txt'', ''docs/b.txt'', ''docs/sub/c.txt'']" w' "[]" None] r
  have "list_all (\<lambda>k. \<not> suffix ''_$folder$'' k) [''docs/a.txt'', ''docs/b.txt'', ''docs/sub/c.txt'']"
    by simp
  with s l r show ?thesis by blast
qed

section \<open>Properties of the Glob Matcher\<close>

lemma matchObjectKeys_fold:
  "foldl (\<lambda>(matchedKeys, w') key.
            if minimatch P glob (drop n key)
            then (matchedKeys @ [key], emit (Debug (Loc ''MatchedKey'' [key])) w')
            else (matchedKeys, w'))
         (acc, w) allKeys =
   (acc @ filter (\<lambda>key. minimatch P glob (drop n key)) allKeys,
    w\<lparr>trace := trace w @ map (\<lambda>key. Debug (Loc ''MatchedKey'' [key]))
                              (filter (\<lambda>key. minimatch P glob (drop n key)) allKeys)\<rparr>)"
  by (induction allKeys arbitrary: acc w) (simp_all add: emit_def)

lemma fst_matchObjectKeys:
  "fst (matchObjectKeys P allKeys sourcePrefix glob w) =
   filter (\<lambda>key. minimatch P glob
              (drop (if sourcePrefix \<noteq> [] then length sourcePrefix + 1 else 0) key)) allKeys"
  by (simp add: matchObjectKeys_def matchObjectKeys_fold Let_def)

text \<open>
  Claim C3: with a source prefix configured, the matcher returns exactly the keys whose
  remainder after the first \<open>length sourcePrefix + 1\<close> characters satisfies the pattern; with
  no prefix configured, exactly the keys that satisfy the pattern themselves.
\<close>

theorem matchObjectKeys_strips_prefix:
  "(sourcePrefix \<noteq> [] \<longrightarrow>
      fst (matchObjectKeys P allKeys sourcePrefix glob w) =
        filter (\<lambda>key. minimatch P glob (drop (length sourcePrefix + 1) key)) allKeys) \<and>
   (sourcePrefix = [] \<longrightarrow>
      fst (matchObjectKeys P allKeys sourcePrefix glob w) =
        filter (\<lambda>key. minimatch P glob key) allKeys)"
  by (simp add: fst_matchObjectKeys)

text \<open>
  Claim C3 on four keys, with the prefix \<open>docs\<close> and with none.
\<close>

theorem matchObjectKeys_strips_prefix_witness:
  "''docs'' \<noteq> [] \<and>
   fst (matchObjectKeys (samplePlatform sampleListing)
          [''docs/a.txt'', ''docs/sub/c.txt'', ''docs/b.txt'', ''a.txt''] ''docs'' ''*.txt'' emptyWorld) =
     [''docs/a.txt'', ''docs/b.txt''] \<and>
   fst (matchObjectKeys (samplePlatform sampleListing)
          [''docs/a.txt'', ''docs/sub/c.txt'', ''docs/b.txt'', ''a.txt''] [] ''*.txt'' emptyWorld) =
     [''a.txt'']"
  using matchObjectKeys_strips_prefix[of "''docs''" "samplePlatform sampleListing"
      "[''docs/a.txt'', ''docs/sub/c.txt'', ''docs/b.txt'', ''a.txt'']" "''*.txt''" emptyWorld]
    matchObjectKeys_strips_prefix[of "[]" "samplePlatform sampleListing"
      "[''docs/a.txt'', ''docs/sub/c.txt'', ''docs/b.txt'', ''a.txt'']" "''*.txt''" emptyWorld]
  by (simp add: samplePlatform_def sampleMatch_def suffix_to_prefix)

text \<open>
  Claim C10: the matcher's output is a subsequence of its input: full keys of the input, in
  the input's order, each at most as often as it occurs there.
\<close>

theorem matchObjectKeys_subseq:
  "subseq (fst (matchObjectKeys P allKeys sourcePrefix glob w)) allKeys"
  by (simp add: fst_matchObjectKeys)

section \<open>Properties of the Download Orchestrator\<close>



text \<open>
  The downloads queued by the inner loop: one per key, in order, for the keys before the
  first collision; only a collision ends the loop early, and only when overwriting is forbidden.
\<close>

lemma forMatchedKeys_downloads:
  "forMatchedKeys P tp keys ds w = (r, ds', w') \<Longrightarrow>
   \<exists>ks. prefix ks keys \<and>
        ds' = ds @ map (\<lambda>k. (getObjectParams P tp k, destination P tp k)) ks \<and>
        (case r of Inr u \<Rightarrow> ks = keys | Inl e \<Rightarrow> \<not> overwrite tp \<and> (\<exists>m. e = Error m))"
proof (induction keys arbitrary: ds w)
  case Nil
  then show ?case by auto
next
  case (Cons k keys)
  show ?case
  proof (cases "existsSync P (disk w) (destination P tp k) \<and> \<not> overwrite tp")
    case True
    with Cons.prems show ?thesis by (auto intro!: exI[of _ "[]"])
  next
    case False
    with Cons.prems obtain w3 where
      "forMatchedKeys P tp keys (ds @ [(getObjectParams P tp k, destination P tp k)]) w3 = (r, ds', w')"
      by (auto simp: Let_def)
    from Cons.IH[OF this] obtain ks where "prefix ks keys"
      "ds' = (ds @ [(getObjectParams P tp k, destination P tp k)]) @
             map (\<lambda>k. (getObjectParams P tp k, destination P tp k)) ks"
      "case r of Inr u \<Rightarrow> ks = keys | Inl e \<Rightarrow> \<not> overwrite tp \<and> (\<exists>m. e = Error m)"
      by blast
    then show ?thesis
      by (intro exI[of _ "k # ks"]) (auto split: sum.splits)
  qed
qed

lemma forGlobs_downloads:
  "forGlobs P tp allKeys globs ds w = (r, ds', w') \<Longrightarrow>
   \<exists>ks. prefix ks (concat (map (\<lambda>glob. fst (matchObjectKeys P allKeys (sourceFolder tp) glob w0)) globs)) \<and>
        ds' = ds @ map (\<lambda>k. (getObjectParams P tp k, destination P tp k)) ks \<and>
        (case r of Inr u \<Rightarrow> ks = concat (map (\<lambda>glob. fst (matchObjectKeys P allKeys (sourceFolder tp) glob w0)) globs)
                 | Inl e \<Rightarrow> \<not> overwrite tp \<and> (\<exists>m. e = Error m))"
proof (induction globs arbitrary: ds w)
  case Nil
  then show ?case by auto
next
  case (Cons g globs)
  let ?m = "fst (matchObjectKeys P allKeys (sourceFolder tp) g w0)"
  obtain w1 where m: "matchObjectKeys P allKeys (sourceFolder tp) g w = (?m, w1)"
    by (metis fst_matchObjectKeys prod.collapse)
  obtain r1 ds1 w2 where f: "forMatchedKeys P tp ?m ds w1 = (r1, ds1, w2)"
    by (metis prod_cases3)
  from forMatchedKeys_downloads[OF f] obtain ks1 where ks1: "prefix ks1 ?m"
    "ds1 = ds @ map (\<lambda>k. (getObjectParams P tp k, destination P tp k)) ks1"
    "case r1 of Inr u \<Rightarrow> ks1 = ?m | Inl e \<Rightarrow> \<not> overwrite tp \<and> (\<exists>m. e = Error m)"
    by blast
  show ?case
  proof (cases r1)
    case (Inl e)
    with Cons.prems m f have "r = Inl e" "ds' = ds1" by auto
    with ks1 Inl show ?thesis
      by (intro exI[of _ ks1]) (auto simp: prefix_def)
  next
    case (Inr u)
    with Cons.prems m f have "forGlobs P tp allKeys globs ds1 w2 = (r, ds', w')" by auto
    from Cons.IH[OF this] obtain ks where ks: 
      "prefix ks (concat (map (\<lambda>glob. fst (matchObjectKeys P allKeys (sourceFolder tp) glob w0)) globs))"
      "ds' = ds1 @ map (\<lambda>k. (getObjectParams P tp k, destination P tp k)) ks"
      "case r of Inr u \<Rightarrow> ks = concat (map (\<lambda>glob. fst (matchObjectKeys P allKeys (sourceFolder tp) glob w0)) globs)
                 | Inl e \<Rightarrow> \<not> overwrite tp \<and> (\<exists>m. e = Error m)"
      by blast
    from ks1 Inr have "ks1 = ?m" by simp
    with ks ks1 show ?thesis
      by (intro exI[of _ "?m @ ks"]) (auto split: sum.splits)
  qed
qed

lemma getKey_getObjectParams: "getKey (getObjectParams P tp k) = k"
  by (simp add: getObjectParams_def Let_def)

lemma promiseAll_not_Error: "promiseAll ps evs \<noteq> Failed (Error m)"
  by (induction ps evs rule: promiseAll.induct) (auto split: promise.splits)

lemma downloadFiles_downloads:
  assumes "downloadFiles fuel P tp evs w = Some (r, ds, w')"
  shows "\<exists>allKeys w1 ks.
           fetchAllObjectKeys fuel P tp (announce P tp w) = Some (Inr allKeys, w1) \<and>
           prefix ks (concat (map (\<lambda>glob. fst (matchObjectKeys P allKeys (sourceFolder tp) glob w)) (globExpressions tp))) \<and>
           ds = map (\<lambda>k. (getObjectParams P tp k, destination P tp k)) ks \<and>
           (overwrite tp \<or> (\<forall>m. r \<noteq> Failed (Error m)) \<longrightarrow>
              ks = concat (map (\<lambda>glob. fst (matchObjectKeys P allKeys (sourceFolder tp) glob w)) (globExpressions tp)))"
proof -
  from assms obtain x w1 where f: "fetchAllObjectKeys fuel P tp (announce P tp w) = Some (x, w1)"
    by (auto simp: downloadFiles_def split: option.splits)
  then obtain allKeys where x: "x = Inr allKeys"
    by (auto simp: fetchAllObjectKeys_def Let_def dest!: listLoop_no_marker split: if_splits)
  obtain r1 ds1 w2 where g: "forGlobs P tp allKeys (globExpressions tp) [] w1 = (r1, ds1, w2)"
    by (metis prod_cases3)
  from forGlobs_downloads[OF g, of w] obtain ks where ks:
    "prefix ks (concat (map (\<lambda>glob. fst (matchObjectKeys P allKeys (sourceFolder tp) glob w)) (globExpressions tp)))"
    "ds1 = map (\<lambda>k. (getObjectParams P tp k, destination P tp k)) ks"
    "case r1 of Inr u \<Rightarrow> ks = concat (map (\<lambda>glob. fst (matchObjectKeys P allKeys (sourceFolder tp) glob w)) (globExpressions tp))
       | Inl e \<Rightarrow> \<not> overwrite tp \<and> (\<exists>m. e = Error m)"
    by auto
  from assms f x g have d: "ds = ds1" and r: "r = (case r1 of Inl e \<Rightarrow> Failed e | Inr u \<Rightarrow> promiseAll (replicate (length ds1) Pending) evs)"
    by (auto simp: downloadFiles_def split: sum.splits)
  show ?thesis
    using f x ks d r
    by (intro exI[of _ allKeys] exI[of _ w1] exI[of _ ks]) (auto split: sum.splits simp: promiseAll_not_Error)
qed

text \<open>
  The sample runs, evaluated: from an empty disk with overwriting allowed, keeping the
  folders and flattening them, and the listing both start from.
\<close>

lemma sample_run_nested:
  "downloadFiles 3 (samplePlatform sampleListing) sampleParameters [] emptyWorld =
   Some (Unsettled,
     [(requestFor ''docs/a.txt'', ''out/docs/a.txt''), (requestFor ''docs/b.txt'', ''out/docs/b.txt''),
      (requestFor ''docs/a.txt'', ''out/docs/a.txt'')],
     \<lparr>trace = listedTrace @ firstGlobTrace @ secondGlobTrace @
        [ConsoleLog (Loc ''QueueingDownload'' [''docs/a.txt'']),
         CreateWriteStream ''out/docs/a.txt'',
         GetObjectCall (requestFor ''docs/a.txt'')],
      disk = [''out/docs'', ''out'']\<rparr>)"
  by code_simp

lemma sample_run_flat:
  "downloadFiles 3 (samplePlatform sampleListing) flatParameters [] emptyWorld =
   Some (Unsettled,
     [(requestFor ''docs/a.txt'', ''out/a.txt''), (requestFor ''docs/b.txt'', ''out/b.txt''),
      (requestFor ''docs/a.txt'', ''out/a.txt'')],
     \<lparr>trace = listedTrace @ flatTrace @ secondGlobTrace @
        [ConsoleLog (Loc ''QueueingDownload'' [''docs/a.txt'']),
         CreateWriteStream ''out/a.txt'',
         GetObjectCall (requestFor ''docs/a.txt'')],
      disk = [''out'']\<rparr>)"
  by code_simp

lemma sample_listed:
  "fetchAllObjectKeys 3 (samplePlatform sampleListing) sampleParameters
     (announce (samplePlatform sampleListing) sampleParameters emptyWorld) =
   Some (Inr [''docs/a.txt'', ''docs/b.txt'', ''docs/sub/c.txt''],
         \<lparr>trace = listedTrace, disk = [''out'']\<rparr>)"
  by code_simp

text \<open>
  Claim C4: the destination of every download the operation queues is determined by the
  key, the target folder and the flatten flag: the target folder joined with the key's
  basename when flattening, and joined with the full key otherwise.
\<close>

theorem downloadFiles_destinations:
  assumes "downloadFiles fuel P tp evs w = Some (r, allDownloads, w')"
  shows "\<forall>(params, dest) \<in> set allDownloads.
           (flattenFolders tp \<longrightarrow> dest = join P (targetFolder tp) (basename P (getKey params))) \<and>
           (\<not> flattenFolders tp \<longrightarrow> dest = join P (targetFolder tp) (getKey params))"
  using downloadFiles_downloads[OF assms]
  by (auto simp: getKey_getObjectParams destination_def)

text \<open>
  Claim C4 on the sample run, with the folders kept and flattened.
\<close>

theorem downloadFiles_destinations_witness:
  "\<not> flattenFolders sampleParameters \<and> flattenFolders flatParameters \<and>
   (\<exists>r w'. downloadFiles 3 (samplePlatform sampleListing) sampleParameters [] emptyWorld =
      Some (r, [(requestFor ''docs/a.txt'', ''out/docs/a.txt''),
                (requestFor ''docs/b.txt'', ''out/docs/b.txt''),
                (requestFor ''docs/a.txt'', ''out/docs/a.txt'')], w')) \<and>
   ''out/docs/a.txt'' = join (samplePlatform sampleListing) ''out'' ''docs/a.txt'' \<and>
   ''out/docs/b.txt'' = join (samplePlatform sampleListing) ''out'' ''docs/b.txt'' \<and>
   (\<exists>r w'. downloadFiles 3 (samplePlatform sampleListing) flatParameters [] emptyWorld =
      Some (r, [(requestFor ''docs/a.txt'', ''out/a.txt''),
                (requestFor ''docs/b.txt'', ''out/b.txt''),
                (requestFor ''docs/a.txt'', ''out/a.txt'')], w')) \<and>
   ''out/a.txt'' = join (samplePlatform sampleListing) ''out''
                     (basename (samplePlatform sampleListing) ''docs/a.txt'') \<and>
   ''out/b.txt'' = join (samplePlatform sampleListing) ''out''
                     (basename (samplePlatform sampleListing) ''docs/b.txt'')"
  using downloadFiles_destinations[OF sample_run_nested] downloadFiles_destinations[OF sample_run_flat]
    sample_run_nested sample_run_flat
  by (simp add: sampleParameters_def flatParameters_def requestFor_def)

text \<open>
  The run with overwriting forbidden on a disk that already holds \<open>out/docs/a.txt\<close>.
\<close>

lemma strict_run_used:
  "downloadFiles 3 (samplePlatform sampleListing) strictParameters [] usedWorld =
   Some (Failed (Error (Loc ''FileExistsError'' [''out/docs/a.txt'', ''docs/a.txt''])), [],
     \<lparr>trace =
        [ConsoleLog (Loc ''DownloadingFiles'' [''docs'', ''bucket'', ''out'']),
         ConsoleLog (Loc ''ListingKeysFromPrefix'' [''docs'', ''bucket'']),
         ListObjectsCall \<lparr>Bucket = ''bucket'', Prefix = ''docs'', Marker = None\<rparr>,
         ListObjectsCall \<lparr>Bucket = ''bucket'', Prefix = ''docs'', Marker = Some ''docs/_$folder$''\<rparr>,
         ConsoleLog (Loc ''GlobbingFromPrefix'' [''docs'', ''*.txt'']),
         Debug (Loc ''MatchedKey'' [''docs/a.txt'']),
         Debug (Loc ''MatchedKey'' [''docs/b.txt''])],
      disk = [''out/docs/a.txt'', ''out/docs'', ''out'']\<rparr>)"
  by code_simp

text \<open>
  Claim C6 says that a key matched by several patterns is queued once per matching pattern.
  It does not hold in every run: \<open>docs/a.txt\<close> satisfies both patterns, and with its
  destination present and overwriting forbidden the operation throws at the first match and
  queues nothing.
\<close>

theorem downloadFiles_no_dedup_counterexample:
  "minimatch (samplePlatform sampleListing) ''*.txt'' (drop (length ''docs'' + 1) ''docs/a.txt'') \<and>
   minimatch (samplePlatform sampleListing) ''a.txt'' (drop (length ''docs'' + 1) ''docs/a.txt'') \<and>
   globExpressions strictParameters = [''*.txt'', ''a.txt''] \<and>
   downloadFiles 3 (samplePlatform sampleListing) strictParameters [] usedWorld =
     Some (Failed (Error (Loc ''FileExistsError'' [''out/docs/a.txt'', ''docs/a.txt''])), [],
       \<lparr>trace =
          [ConsoleLog (Loc ''DownloadingFiles'' [''docs'', ''bucket'', ''out'']),
           ConsoleLog (Loc ''ListingKeysFromPrefix'' [''docs'', ''bucket'']),
           ListObjectsCall \<lparr>Bucket = ''bucket'', Prefix = ''docs'', Marker = None\<rparr>,
           ListObjectsCall \<lparr>Bucket = ''bucket'', Prefix = ''docs'', Marker = Some ''docs/_$folder$''\<rparr>,
           ConsoleLog (Loc ''GlobbingFromPrefix'' [''docs'', ''*.txt'']),
           Debug (Loc ''MatchedKey'' [''docs/a.txt'']),
           Debug (Loc ''MatchedKey'' [''docs/b.txt''])],
        disk = [''out/docs/a.txt'', ''out/docs'', ''out'']\<rparr>)"
  using strict_run_used
  by (simp add: samplePlatform_def sampleMatch_def suffix_to_prefix strictParameters_def
      sampleParameters_def)

text \<open>
  Claim C6, as the code has it: unless the operation is aborted by a destination collision,
  which cannot happen when overwriting is allowed, the keys of the queued downloads are the
  keys matched by the first pattern, then those matched by the second, and so on: one
  download per pattern and key it matches, with nothing removed across patterns.
\<close>

theorem downloadFiles_no_dedup:
  assumes "downloadFiles fuel P tp evs w = Some (r, allDownloads, w')"
    and "fetchAllObjectKeys fuel P tp (announce P tp w) = Some (Inr allKeys, w1)"
    and "overwrite tp \<or> (\<forall>m. r \<noteq> Failed (Error m))"
  shows "map (\<lambda>(params, dest). getKey params) allDownloads =
         concat (map (\<lambda>glob. filter (\<lambda>key. minimatch P glob
                    (drop (if sourceFolder tp \<noteq> [] then length (sourceFolder tp) + 1 else 0) key)) allKeys)
                 (globExpressions tp))"
  using downloadFiles_downloads[OF assms(1)] assms(2,3)
  by (auto simp: getKey_getObjectParams fst_matchObjectKeys comp_def)

text \<open>
  The amended claim C6 on the sample run: \<open>docs/a.txt\<close> is queued twice.
\<close>

theorem downloadFiles_no_dedup_witness:
  "overwrite sampleParameters \<and>
   (\<exists>r ds w'. downloadFiles 3 (samplePlatform sampleListing) sampleParameters [] emptyWorld =
                 Some (r, ds, w') \<and>
               map (\<lambda>(params, dest). getKey params) ds = [''docs/a.txt'', ''docs/b.txt'', ''docs/a.txt''])"
proof -
  have o: "overwrite sampleParameters" by (simp add: sampleParameters_def)
  then have o': "overwrite sampleParameters \<or> (\<forall>m. Unsettled \<noteq> Failed (Error m))" by simp
  from downloadFiles_no_dedup[OF sample_run_nested sample_listed o'] o sample_run_nested
  show ?thesis by (simp add: requestFor_def)
qed

















text \<open>
  Claim C7: when the bucket check fails, the operation fails with the \<open>BucketNotExist\<close>
  message, whatever the fuel; the only effect is the \<open>headBucket\<close> request, so nothing was
  listed, queued or written.
\<close>

theorem execute_bucket_missing:
  assumes "headBucket P (bucketName tp) = Inl err"
  shows "execute fuel P tp evs w =
           Some (Failed (Error (Loc ''BucketNotExist'' [bucketName tp])), [],
                 w\<lparr>trace := trace w @ [HeadBucketCall (bucketName tp)]\<rparr>)"
  using assms by (simp add: execute_def testBucketExists_def emit_def)

text \<open>
  Claim C7 on a bucket the sample service does not know.
\<close>

theorem execute_bucket_missing_witness:
  "headBucket (samplePlatform sampleListing) (bucketName missingParameters) = Inl ''NotFound'' \<and>
   execute 0 (samplePlatform sampleListing) missingParameters [] emptyWorld =
     Some (Failed (Error (Loc ''BucketNotExist'' [''missing''])), [],
           \<lparr>trace = [HeadBucketCall ''missing''], disk = []\<rparr>)"
proof -
  have h: "headBucket (samplePlatform sampleListing) (bucketName missingParameters) = Inl ''NotFound''"
    by code_simp
  from execute_bucket_missing[OF h, of 0 "[]" emptyWorld] h show ?thesis
    by (simp add: missingParameters_def sampleParameters_def emptyWorld_def)
qed

section \<open>Properties of the Object Fetcher\<close>

lemma settle_once: "p \<noteq> Pending \<Longrightarrow> settle p ev = p"
  by (cases p; cases ev) simp_all

lemma settle_settled: "p \<noteq> Pending \<Longrightarrow> foldl settle p evs = p"
  by (induction evs) (simp_all add: settle_once)

lemma settle_rejects:
  "FileClose \<notin> set pre \<Longrightarrow> ev = S3StreamError err \<or> ev = FileError err \<Longrightarrow>
   \<exists>e. foldl settle Pending (pre @ ev # post) = Rejected e"
proof (induction pre)
  case Nil
  then show ?case by (auto simp: settle_settled)
next
  case (Cons a pre)
  then show ?case by (cases a) (auto simp: settle_settled)
qed

lemma settle_quiet:
  "FileClose \<notin> set pre \<Longrightarrow> \<forall>e. S3StreamError e \<notin> set pre \<and> FileError e \<notin> set pre \<Longrightarrow>
   foldl settle Pending pre = Pending"
proof (induction pre)
  case Nil
  then show ?case by simp
next
  case (Cons a pre)
  then show ?case by (cases a) auto
qed

lemma settle_resolved:
  "foldl settle Pending evs = Resolved \<Longrightarrow>
   \<exists>pre post. evs = pre @ FileClose # post \<and> FileClose \<notin> set pre \<and>
     (\<forall>e. S3StreamError e \<notin> set pre \<and> FileError e \<notin> set pre)"
proof (induction evs)
  case Nil
  then show ?case by simp
next
  case (Cons a evs)
  show ?case
  proof (cases a)
    case (S3StreamError e)
    with Cons.prems show ?thesis by (simp add: settle_settled)
  next
    case (FileError e)
    with Cons.prems show ?thesis by (simp add: settle_settled)
  next
    case FileClose
    then show ?thesis by (intro exI[of _ "[]"] exI[of _ evs]) simp
  next
    case OtherEvent
    with Cons.prems have "foldl settle Pending evs = Resolved" by simp
    from Cons.IH[OF this] obtain pre post where "evs = pre @ FileClose # post" "FileClose \<notin> set pre"
      "\<forall>e. S3StreamError e \<notin> set pre \<and> FileError e \<notin> set pre" by blast
    with OtherEvent show ?thesis
      by (intro exI[of _ "a # pre"] exI[of _ post]) auto
  qed
qed

text \<open>
  Claim C8: when either stream reports an error before the file has closed, the download's
  promise is rejected, with that error when it is the first one; and the promise is resolved
  only when the file's \<open>close\<close> event has arrived, with no error before it.
\<close>

theorem downloadFile_promise_settles:
  "(evs = pre @ ev # post \<and> FileClose \<notin> set pre \<and> (ev = S3StreamError err \<or> ev = FileError err) \<longrightarrow>
      (\<exists>e. downloadFile_promise evs = Rejected e) \<and>
      ((\<forall>e. S3StreamError e \<notin> set pre \<and> FileError e \<notin> set pre) \<longrightarrow>
         downloadFile_promise evs = Rejected err)) \<and>
   (downloadFile_promise evs = Resolved \<longrightarrow>
      (\<exists>pre' post'. evs = pre' @ FileClose # post' \<and> FileClose \<notin> set pre' \<and>
         (\<forall>e. S3StreamError e \<notin> set pre' \<and> FileError e \<notin> set pre')))"
proof (intro conjI impI)
  assume a: "evs = pre @ ev # post \<and> FileClose \<notin> set pre \<and> (ev = S3StreamError err \<or> ev = FileError err)"
  then show "\<exists>e. downloadFile_promise evs = Rejected e"
    using settle_rejects[of pre ev err post] by (auto simp: downloadFile_promise_def)
  assume q: "\<forall>e. S3StreamError e \<notin> set pre \<and> FileError e \<notin> set pre"
  with a have "foldl settle Pending pre = Pending" by (simp add: settle_quiet)
  with a show "downloadFile_promise evs = Rejected err"
    by (auto simp: downloadFile_promise_def settle_settled)
next
  assume "downloadFile_promise evs = Resolved"
  then show "\<exists>pre' post'. evs = pre' @ FileClose # post' \<and> FileClose \<notin> set pre' \<and>
         (\<forall>e. S3StreamError e \<notin> set pre' \<and> FileError e \<notin> set pre')"
    using settle_resolved[of evs] by (simp add: downloadFile_promise_def)
qed

text \<open>
  Claim C8 on three event sequences.
\<close>

theorem downloadFile_promise_settles_witness:
  "FileClose \<notin> set [OtherEvent] \<and>
   downloadFile_promise ([OtherEvent] @ S3StreamError ''reset'' # [FileClose]) = Rejected ''reset'' \<and>
   downloadFile_promise ([OtherEvent] @ FileError ''disk full'' # [OtherEvent]) = Rejected ''disk full'' \<and>
   downloadFile_promise [OtherEvent, FileClose, S3StreamError ''late''] = Resolved \<and>
   (\<exists>pre post. [OtherEvent, FileClose, S3StreamError ''late''] = pre @ FileClose # post \<and>
      FileClose \<notin> set pre)"
proof -
  have r: "downloadFile_promise [OtherEvent, FileClose, S3StreamError ''late''] = Resolved"
    by (simp add: downloadFile_promise_def)
  from downloadFile_promise_settles[of "[OtherEvent] @ S3StreamError ''reset'' # [FileClose]"
      "[OtherEvent]" "S3StreamError ''reset''" "[FileClose]" "''reset''"]
  have a: "downloadFile_promise ([OtherEvent] @ S3StreamError ''reset'' # [FileClose]) = Rejected ''reset''"
    by simp
  from downloadFile_promise_settles[of "[OtherEvent] @ FileError ''disk full'' # [OtherEvent]"
      "[OtherEvent]" "FileError ''disk full''" "[OtherEvent]" "''disk full''"]
  have b: "downloadFile_promise ([OtherEvent] @ FileError ''disk full'' # [OtherEvent]) = Rejected ''disk full''"
    by simp
  from downloadFile_promise_settles[of "[OtherEvent, FileClose, S3StreamError ''late'']"] r
  have c: "\<exists>pre post. [OtherEvent, FileClose, S3StreamError ''late''] = pre @ FileClose # post \<and>
      FileClose \<notin> set pre"
    by blast
  from a b c r show ?thesis by simp
qed

section \<open>Properties of the identity resolution\<close>

text \<open>
  Claim C9: a name that starts with \<open>arn:\<close> is returned as it is, with no effect; any other
  name is looked up, and the result is the role's ARN when the lookup succeeds and an error
  carrying the lookup's error when it fails.
\<close>

theorem roleArnFromName_resolves:
  "(prefix ''arn:'' roleName \<longrightarrow> roleArnFromName iamClient roleName w = (Inr roleName, w)) \<and>
   (\<not> prefix ''arn:'' roleName \<and> iamClient roleName = Inr response \<longrightarrow>
      fst (roleArnFromName iamClient roleName w) = Inr (Arn (Role response))) \<and>
   (\<not> prefix ''arn:'' roleName \<and> iamClient roleName = Inl err \<longrightarrow>
      fst (roleArnFromName iamClient roleName w) = Inl (Error (Str (''Error while obtaining ARN: '' @ err))))"
  by (simp add: roleArnFromName_def Let_def)

text \<open>
  Claim C9 on an ARN, a known role name and an unknown one.
\<close>

theorem roleArnFromName_resolves_witness:
  "prefix ''arn:'' ''arn:aws:iam::123456789012:role/build'' \<and>
   roleArnFromName sampleRoles ''arn:aws:iam::123456789012:role/build'' emptyWorld =
     (Inr ''arn:aws:iam::123456789012:role/build'', emptyWorld) \<and>
   \<not> prefix ''arn:'' ''deploy'' \<and>
   fst (roleArnFromName sampleRoles ''deploy'' emptyWorld) = Inr ''arn:aws:iam::123456789012:role/deploy'' \<and>
   \<not> prefix ''arn:'' ''nobody'' \<and>
   fst (roleArnFromName sampleRoles ''nobody'' emptyWorld) =
     Inl (Error (Str ''Error while obtaining ARN: NoSuchEntity''))"
  using roleArnFromName_resolves[where roleName = "''arn:aws:iam::123456789012:role/build''"
      and iamClient = sampleRoles and w = emptyWorld]
    roleArnFromName_resolves[where roleName = "''deploy''" and iamClient = sampleRoles
      and response = "\<lparr>Role = \<lparr>Arn = ''arn:aws:iam::123456789012:role/deploy''\<rparr>\<rparr>"
      and w = emptyWorld]
    roleArnFromName_resolves[where roleName = "''nobody''" and iamClient = sampleRoles
      and err = "''NoSuchEntity''" and w = emptyWorld]
  by (simp add: sampleRoles_def)

end
